theory Spec2Isabelle
  imports Main "HOL-Library.Multiset" "HOL-Library.Sublist"
begin

section \<open>Fine-tuning GPT-Neo: the notebook as a sequential program\<close>

text \<open>
  The repository is one notebook, \<^verbatim>\<open>Fine_Tuning_With_GPT_Neo.ipynb\<close>. Its code cells
  3, 5, 7, 9, 11, 13, 15 and 17 form a straight-line Python script; cell 1 installs
  packages through a shell escape and, like the \<^verbatim>\<open>import\<close> lines of cell 3, is
  environment set-up outside the model: a run starts at the first statement after them.

  The script's own statements (subscripts, list comprehensions, the conditional on the
  pad token, attribute assignments) are translated from the code. The calls into
  \<^verbatim>\<open>requests\<close>, \<^verbatim>\<open>transformers\<close> and \<^verbatim>\<open>datasets\<close> are calls into third-party
  libraries: whatever they compute from the outside world (the HTTP response, the
  published tokenizer and weights, the random generator, the training loop, the disk) is
  a field of the record \<open>world\<close>, and what the notebook's own keyword arguments fix
  (truncation, padding, \<^verbatim>\<open>max_length\<close>, \<^verbatim>\<open>test_size\<close>, \<^verbatim>\<open>num_labels\<close>) is written out
  as the library documents it and as the notebook's markdown cells describe it.
\<close>

subsection \<open>Python values and exceptions\<close>

text \<open>
  \<^verbatim>\<open>response.json()\<close> returns a Python object built from \<^verbatim>\<open>None\<close>, booleans, integers,
  floats, strings, lists and dictionaries. A dictionary is kept as an association list
  read by \<open>map_of\<close>; the list stands for the parsed dictionary, so the JSON parser has
  already settled which of two equal keys of the text counts. No statement of the
  notebook looks inside a float, so its value is an uninterpreted pair (mantissa,
  exponent). The only string the notebook compares with is the ASCII literal
  \<^verbatim>\<open>'pos'\<close>, so strings may be read in any encoding that keeps ASCII.
\<close>

datatype json =
    JNull
  | JBool bool
  | JInt int
  | JFloat int int
  | JStr string
  | JList "json list"
  | JDict "(string \<times> json) list"

text \<open>
  Exceptions: \<open>KeyError\<close> and \<open>TypeError\<close> are raised by the script's own subscripts and
  iterations, \<open>ValueError\<close> and \<open>IndexError\<close> by the library operations modelled below,
  and \<open>LibraryError\<close> stands for any exception a library call reports from the world
  (connection failure, undecodable body, missing repository, full disk, ...).
\<close>

datatype pyerr =
    KeyError string
  | TypeError
  | ValueError
  | IndexError
  | LibraryError string

definition and_then :: "pyerr + 'a \<Rightarrow> ('a \<Rightarrow> pyerr + 'b) \<Rightarrow> pyerr + 'b" where
  "and_then r k = (case r of Inl e \<Rightarrow> Inl e | Inr x \<Rightarrow> k x)"

text \<open>Python \<^verbatim>\<open>v[k]\<close> with a string key: only a dictionary can be subscripted by a string.\<close>

definition subscript :: "json \<Rightarrow> string \<Rightarrow> pyerr + json" where
  "subscript v k =
     (case v of
        JDict kvs \<Rightarrow> (case map_of kvs k of None \<Rightarrow> Inl (KeyError k) | Some x \<Rightarrow> Inr x)
      | _ \<Rightarrow> Inl TypeError)"

text \<open>
  Python \<^verbatim>\<open>for row in v\<close>: a list yields its elements, a dictionary its keys, a string its
  one-character substrings; \<^verbatim>\<open>None\<close>, booleans and numbers are not iterable.
\<close>

definition iterate :: "json \<Rightarrow> pyerr + json list" where
  "iterate v =
     (case v of
        JList xs \<Rightarrow> Inr xs
      | JDict kvs \<Rightarrow> Inr (map JStr (remdups (map fst kvs)))
      | JStr s \<Rightarrow> Inr (map (\<lambda>c. JStr [c]) s)
      | _ \<Rightarrow> Inl TypeError)"

text \<open>
  A list comprehension \<^verbatim>\<open>[f(x) for x in xs]\<close> whose element expression may raise: the
  elements are evaluated left to right and the first exception ends the comprehension.
\<close>

fun comprehension :: "('a \<Rightarrow> pyerr + 'b) \<Rightarrow> 'a list \<Rightarrow> pyerr + 'b list" where
  "comprehension f [] = Inr []"
| "comprehension f (x # xs) =
     (case f x of
        Inl e \<Rightarrow> Inl e
      | Inr y \<Rightarrow> (case comprehension f xs of Inl e \<Rightarrow> Inl e | Inr ys \<Rightarrow> Inr (y # ys)))"

subsection \<open>Cell 5: texts and labels\<close>

text \<open>
  \<^verbatim>\<open>texts = [row['row']['text'] for row in data['rows']]\<close>
  \<^verbatim>\<open>labels = [1 if row['row']['label'] == 'pos' else 0 for row in data['rows']]\<close>
\<close>

definition rows_of :: "json \<Rightarrow> pyerr + json list" where
  "rows_of data = and_then (subscript data ''rows'') iterate"

definition row_text :: "json \<Rightarrow> pyerr + json" where
  "row_text row = and_then (subscript row ''row'') (\<lambda>r. subscript r ''text'')"

definition row_label :: "json \<Rightarrow> pyerr + int" where
  "row_label row =
     and_then (subscript row ''row'') (\<lambda>r.
     and_then (subscript r ''label'') (\<lambda>l.
     Inr (if l = JStr ''pos'' then 1 else 0)))"

definition extract_texts :: "json \<Rightarrow> pyerr + json list" where
  "extract_texts data = and_then (rows_of data) (comprehension row_text)"

definition extract_labels :: "json \<Rightarrow> pyerr + int list" where
  "extract_labels data = and_then (rows_of data) (comprehension row_label)"

text \<open>\<^verbatim>\<open>num_labels=2\<close>, the argument of \<^verbatim>\<open>GPTNeoForSequenceClassification.from_pretrained\<close> in cell 13.\<close>

definition num_labels :: nat where
  "num_labels = 2"

text \<open>
  Reading a field for the statement of properties: the value stored under a key of a
  dictionary, \<open>None\<close> when the value is no dictionary or has no such key.
\<close>

definition field :: "json \<Rightarrow> string \<Rightarrow> json option" where
  "field v k = (case v of JDict kvs \<Rightarrow> map_of kvs k | _ \<Rightarrow> None)"

definition label_field :: "json \<Rightarrow> json option" where
  "label_field row = (case field row ''row'' of None \<Rightarrow> None | Some r \<Rightarrow> field r ''label'')"

definition text_field :: "json \<Rightarrow> json option" where
  "text_field row = (case field row ''row'' of None \<Rightarrow> None | Some r \<Rightarrow> field r ''text'')"

subsection \<open>The outside world and the library objects\<close>

text \<open>
  \<^verbatim>\<open>requests.get\<close> returns a response or raises; \<^verbatim>\<open>response.json()\<close> parses its body or
  raises. The status code is carried along because the notebook never looks at it.
\<close>

record response =
  status_code :: nat
  json_body :: "pyerr + json"

text \<open>
  A tokenizer, as far as the notebook touches it: its tokens in id order (so
  \<^verbatim>\<open>len(tokenizer)\<close> is the length of the list and an added token gets the next id) and
  its pad token, \<^verbatim>\<open>None\<close> for the tokenizer GPT-Neo is published with. The library
  keeps a pad token among the tokens (loading and \<^verbatim>\<open>add_special_tokens\<close> both add it),
  so its id is its position in the list.
\<close>

record tokenizer =
  vocab :: "string list"
  pad_token :: "string option"

fun token_id :: "string list \<Rightarrow> string \<Rightarrow> nat option" where
  "token_id [] t = None"
| "token_id (x # xs) t =
     (if x = t then Some 0 else (case token_id xs t of None \<Rightarrow> None | Some i \<Rightarrow> Some (Suc i)))"

definition pad_token_id :: "tokenizer \<Rightarrow> nat option" where
  "pad_token_id tok = (case pad_token tok of None \<Rightarrow> None | Some t \<Rightarrow> token_id (vocab tok) t)"

definition len_tokenizer :: "tokenizer \<Rightarrow> nat" where
  "len_tokenizer tok = length (vocab tok)"

text \<open>
  \<^verbatim>\<open>tokenizer.add_special_tokens({'pad_token': t})\<close>: \<open>t\<close> becomes the pad token and is
  appended to the vocabulary unless it is already a token.
\<close>

definition add_special_tokens :: "tokenizer \<Rightarrow> string \<Rightarrow> tokenizer" where
  "add_special_tokens tok t =
     tok\<lparr>vocab := (if t \<in> set (vocab tok) then vocab tok else vocab tok @ [t]),
         pad_token := Some t\<rparr>"

record encodings =
  enc_input_ids :: "nat list list"
  enc_attention_mask :: "nat list list"

record dataset =
  input_ids :: "nat list list"
  attention_mask :: "nat list list"
  labels :: "int list"

record dataset_dict =
  train :: dataset
  test :: dataset

text \<open>
  The published checkpoint, and the model built from it. The parameter tensors are
  floating-point arrays that no statement of the notebook inspects: \<open>weights\<close> is an
  opaque name for their values.
\<close>

record checkpoint =
  ckpt_vocab_size :: nat
  ckpt_pad_token_id :: "nat option"
  ckpt_weights :: nat

record model =
  config_num_labels :: nat
  config_pad_token_id :: "nat option"
  embedding_rows :: nat
  weights :: nat

text \<open>
  Cell 15's \<^verbatim>\<open>TrainingArguments\<close>. The two float arguments are kept as decimal
  (mantissa, exponent) pairs: \<^verbatim>\<open>2e-5\<close> is \<open>(2, -5)\<close> and \<^verbatim>\<open>0.01\<close> is \<open>(1, -2)\<close>.
\<close>

record training_arguments =
  output_dir :: string
  evaluation_strategy :: string
  learning_rate :: "int \<times> int"
  per_device_train_batch_size :: nat
  per_device_eval_batch_size :: nat
  num_train_epochs :: nat
  weight_decay :: "int \<times> int"
  logging_dir :: string
  logging_steps :: nat
  save_total_limit :: nat

record trainer =
  trainer_model :: model
  trainer_args :: training_arguments
  trainer_train_dataset :: dataset
  trainer_eval_dataset :: dataset

text \<open>
  Everything the library calls take from outside the notebook. Each field is what one
  call returns or raises in the run at hand:
  \<^item> \<open>http_get\<close>: \<^verbatim>\<open>requests.get(url)\<close>;
  \<^item> \<open>hub_tokenizer\<close>: \<^verbatim>\<open>AutoTokenizer.from_pretrained(name)\<close>;
  \<^item> \<open>tokenizer_downloads\<close>, \<open>model_downloads\<close>: the URLs the two
    \<^verbatim>\<open>from_pretrained\<close> calls fetch from the model hub with HTTP GET; both take a hub
    repository name, so the library downloads whatever the local cache does not hold (no
    URL at all when every file is cached);
  \<^item> \<open>encode\<close>: the token ids the tokenizer gives one input before truncation and padding,
    or the exception it raises for it (an input that is no string, for instance);
  \<^item> \<open>empty_batch_error\<close>: what the tokenizer raises for an empty batch, if anything
    (releases of the library differ);
  \<^item> \<open>global_permutation\<close>: the permutation of \<^verbatim>\<open>range(n)\<close> the random generator yields
    when no seed is given, drawn from the process-wide generator state;
  \<^item> \<open>seeded_permutation\<close>: the permutation it yields for a given seed;
  \<^item> \<open>hub_checkpoint\<close>: the checkpoint \<^verbatim>\<open>from_pretrained(name)\<close> loads;
  \<^item> \<open>training_arguments_error\<close>, \<open>trainer_error\<close>: what the two constructors raise, if
    anything (an argument a release no longer accepts, a missing dependency);
  \<^item> \<open>train_outcome\<close>: the parameter values \<^verbatim>\<open>trainer.train()\<close> leaves in the model, or
    the exception it raises;
  \<^item> \<open>save_model_error\<close>, \<open>save_tokenizer_error\<close>: what the two \<^verbatim>\<open>save_pretrained\<close> calls
    raise, if anything.
\<close>

record world =
  http_get :: "string \<Rightarrow> pyerr + response"
  hub_tokenizer :: "string \<Rightarrow> pyerr + tokenizer"
  tokenizer_downloads :: "string \<Rightarrow> string list"
  encode :: "tokenizer \<Rightarrow> json \<Rightarrow> pyerr + nat list"
  empty_batch_error :: "pyerr option"
  global_permutation :: "nat \<Rightarrow> nat list"
  seeded_permutation :: "nat \<Rightarrow> nat \<Rightarrow> nat list"
  hub_checkpoint :: "string \<Rightarrow> pyerr + checkpoint"
  model_downloads :: "string \<Rightarrow> string list"
  training_arguments_error :: "training_arguments \<Rightarrow> pyerr option"
  trainer_error :: "trainer \<Rightarrow> pyerr option"
  train_outcome :: "trainer \<Rightarrow> pyerr + nat"
  save_model_error :: "string \<Rightarrow> model \<Rightarrow> pyerr option"
  save_tokenizer_error :: "string \<Rightarrow> tokenizer \<Rightarrow> pyerr option"

definition raise_if :: "pyerr option \<Rightarrow> 'a \<Rightarrow> pyerr + 'a" where
  "raise_if err x = (case err of None \<Rightarrow> Inr x | Some e \<Rightarrow> Inl e)"

subsection \<open>Library operations with the notebook's arguments\<close>

text \<open>
  \<^verbatim>\<open>tokenizer(texts, truncation=True, padding=True, max_length=512)\<close>. Cell 8 of the
  notebook describes the arguments: with \<^verbatim>\<open>truncation=True\<close> a text that exceeds
  \<^verbatim>\<open>max_length\<close> is truncated, with \<^verbatim>\<open>padding=True\<close> shorter sequences are padded so that
  all inputs of the batch have the same length. Padding needs a pad token; the pad id
  fills the token ids and 0 the attention mask, whose 1s mark the real tokens. One
  sequence comes back per input.
\<close>

definition pad_to :: "nat \<Rightarrow> 'a \<Rightarrow> 'a list \<Rightarrow> 'a list" where
  "pad_to n p xs = xs @ replicate (n - length xs) p"

definition longest :: "'a list list \<Rightarrow> nat" where
  "longest xss = foldr (\<lambda>xs m. max (length xs) m) xss 0"

definition tokenizer_call ::
  "world \<Rightarrow> tokenizer \<Rightarrow> json list \<Rightarrow> bool \<Rightarrow> bool \<Rightarrow> nat \<Rightarrow> pyerr + encodings" where
  "tokenizer_call w tok texts truncation padding max_length =
     (if padding \<and> pad_token_id tok = None then Inl ValueError
      else
        and_then (comprehension (encode w tok) texts) (\<lambda>seqs.
        and_then (raise_if (if seqs = [] then empty_batch_error w else None) seqs) (\<lambda>seqs.
          let cut = (if truncation then map (take max_length) seqs else seqs);
              width = longest cut;
              pad_id = (case pad_token_id tok of None \<Rightarrow> 0 | Some p \<Rightarrow> p)
          in Inr \<lparr>enc_input_ids =
                    (if padding then map (pad_to width pad_id) cut else cut),
                  enc_attention_mask =
                    (if padding then map (\<lambda>s. pad_to width 0 (replicate (length s) 1)) cut
                     else map (\<lambda>s. replicate (length s) 1) cut)\<rparr>)))"

text \<open>
  \<^verbatim>\<open>Dataset.from_dict\<close> builds a table from columns and raises when they differ in length.
\<close>

definition from_dict :: "nat list list \<Rightarrow> nat list list \<Rightarrow> int list \<Rightarrow> pyerr + dataset" where
  "from_dict ids masks lbls =
     (if length masks = length ids \<and> length lbls = length ids
      then Inr \<lparr>input_ids = ids, attention_mask = masks, labels = lbls\<rparr>
      else Inl ValueError)"

definition num_rows :: "dataset \<Rightarrow> nat" where
  "num_rows ds = length (input_ids ds)"

text \<open>The examples of a dataset: its rows, one triple per example.\<close>

definition examples :: "dataset \<Rightarrow> (nat list \<times> nat list \<times> int) list" where
  "examples ds = zip (input_ids ds) (zip (attention_mask ds) (labels ds))"

text \<open>\<^verbatim>\<open>Dataset.select(indices)\<close>: the rows at the indices, in their order.\<close>

definition select :: "dataset \<Rightarrow> nat list \<Rightarrow> pyerr + dataset" where
  "select ds idx =
     (if list_all (\<lambda>i. i < num_rows ds) idx
      then Inr \<lparr>input_ids = map (\<lambda>i. input_ids ds ! i) idx,
                attention_mask = map (\<lambda>i. attention_mask ds ! i) idx,
                labels = map (\<lambda>i. labels ds ! i) idx\<rparr>
      else Inl IndexError)"

text \<open>
  \<^verbatim>\<open>dataset.train_test_split(test_size=0.2)\<close>, which cell 10 describes as splitting the
  dataset into 80% training and 20% testing sets. The library shuffles by default: it
  takes a permutation of the row indices from the random generator, seeded by its
  \<^verbatim>\<open>seed\<close> argument or, when that is \<^verbatim>\<open>None\<close>, from the process-wide generator; the first
  \<^verbatim>\<open>ceil(test_size * n)\<close> indices select the test rows and the remaining ones the train
  rows. An empty dataset is returned as both parts, and a split that would leave the
  train part empty raises. The float \<^verbatim>\<open>test_size\<close> is kept as the exact fraction
  2/10: for row counts of the size at hand the double-precision product \<^verbatim>\<open>0.2 * n\<close> has
  the same ceiling.
\<close>

definition ceil_frac :: "nat \<times> nat \<Rightarrow> nat \<Rightarrow> nat" where
  "ceil_frac q n = (fst q * n + snd q - 1) div snd q"

definition train_test_split ::
  "world \<Rightarrow> dataset \<Rightarrow> nat \<times> nat \<Rightarrow> nat option \<Rightarrow> pyerr + dataset_dict" where
  "train_test_split w ds test_size seed =
     (let n = num_rows ds in
      if n = 0 then Inr \<lparr>train = ds, test = ds\<rparr>
      else
        let n_test = ceil_frac test_size n;
            n_train = n - n_test
        in if n_train = 0 then Inl ValueError
           else
             let permutation =
                   (case seed of None \<Rightarrow> global_permutation w n
                    | Some s \<Rightarrow> seeded_permutation w s n);
                 test_indices = take n_test permutation;
                 train_indices = take n_train (drop n_test permutation)
             in and_then (select ds train_indices) (\<lambda>train_split.
                and_then (select ds test_indices) (\<lambda>test_split.
                Inr \<lparr>train = train_split, test = test_split\<rparr>)))"

text \<open>
  \<^verbatim>\<open>GPTNeoForSequenceClassification.from_pretrained(name, num_labels=k)\<close>: the checkpoint's
  configuration and parameters under a classification head with \<open>k\<close> labels.
\<close>

definition from_pretrained :: "world \<Rightarrow> string \<Rightarrow> nat \<Rightarrow> pyerr + model" where
  "from_pretrained w name k =
     and_then (hub_checkpoint w name) (\<lambda>c.
       Inr \<lparr>config_num_labels = k,
            config_pad_token_id = ckpt_pad_token_id c,
            embedding_rows = ckpt_vocab_size c,
            weights = ckpt_weights c\<rparr>)"

text \<open>
  \<^verbatim>\<open>model.resize_token_embeddings(n)\<close>, in cell 12's words: the embedding layer is resized
  to accommodate the added tokens; the table has \<open>n\<close> rows afterwards.
\<close>

definition resize_token_embeddings :: "model \<Rightarrow> nat \<Rightarrow> model" where
  "resize_token_embeddings m n = m\<lparr>embedding_rows := n\<rparr>"

subsection \<open>Running statements\<close>

text \<open>
  A run is the list of operations the script has started, in order, and either the
  exception that ended it or the value it produced. An exception is never caught: the
  notebook has no \<^verbatim>\<open>try\<close>.
\<close>

datatype event =
    RequestsGet string
  | ResponseJson
  | ExtractTexts
  | ExtractLabels
  | TokenizerFromPretrained string
  | AddSpecialTokens string
  | TokenizerCall
  | DatasetFromDict
  | TrainTestSplit
  | ModelFromPretrained string nat
  | SetPadTokenId
  | ResizeTokenEmbeddings
  | MakeTrainingArguments
  | MakeTrainer
  | TrainerTrain
  | ModelSavePretrained string
  | TokenizerSavePretrained string

type_synonym 'a run = "event list \<times> (pyerr + 'a)"

definition call :: "event \<Rightarrow> pyerr + 'a \<Rightarrow> 'a run" where
  "call ev r = ([ev], r)"

definition result :: "'a \<Rightarrow> 'a run" where
  "result x = ([], Inr x)"

definition then_run :: "'a run \<Rightarrow> ('a \<Rightarrow> 'b run) \<Rightarrow> 'b run" where
  "then_run m k =
     (case snd m of
        Inl e \<Rightarrow> (fst m, Inl e)
      | Inr x \<Rightarrow> (fst m @ fst (k x), snd (k x)))"

subsection \<open>The cells\<close>

definition dataset_url :: string where
  "dataset_url = ''https://datasets-server.huggingface.co/rows?dataset=stanfordnlp%2Fimdb&config=plain_text&split=train&offset=0&length=100''"

definition model_name :: string where
  "model_name = ''EleutherAI/gpt-neo-125M''"

definition save_dir :: string where
  "save_dir = ''./fine_tuned_gpt_neo''"

definition test_size :: "nat \<times> nat" where
  "test_size = (2, 10)"

text \<open>Cell 3: \<^verbatim>\<open>response = requests.get(url); data = response.json()\<close>.\<close>

definition cell3 :: "world \<Rightarrow> json run" where
  "cell3 w =
     then_run (call (RequestsGet dataset_url) (http_get w dataset_url)) (\<lambda>response.
     call ResponseJson (json_body response))"

text \<open>Cell 5: the two comprehensions, texts first.\<close>

definition cell5 :: "json \<Rightarrow> (json list \<times> int list) run" where
  "cell5 data =
     then_run (call ExtractTexts (extract_texts data)) (\<lambda>texts.
     then_run (call ExtractLabels (extract_labels data)) (\<lambda>lbls.
     result (texts, lbls)))"

text \<open>Cell 7: \<^verbatim>\<open>tokenizer = AutoTokenizer.from_pretrained("EleutherAI/gpt-neo-125M")\<close>.\<close>

definition cell7 :: "world \<Rightarrow> tokenizer run" where
  "cell7 w = call (TokenizerFromPretrained model_name) (hub_tokenizer w model_name)"

text \<open>
  Cell 9:
  \<^verbatim>\<open>if tokenizer.pad_token is None: tokenizer.add_special_tokens({'pad_token': '[PAD]'})\<close>
  \<^verbatim>\<open>encodings = tokenizer(texts, truncation=True, padding=True, max_length=512)\<close>
  \<^verbatim>\<open>dataset = Dataset.from_dict({'input_ids': ..., 'attention_mask': ..., 'labels': labels})\<close>
\<close>

definition cell9 :: "world \<Rightarrow> tokenizer \<Rightarrow> json list \<Rightarrow> int list \<Rightarrow> (tokenizer \<times> dataset) run" where
  "cell9 w tokenizer0 texts lbls =
     then_run
       (if pad_token tokenizer0 = None
        then call (AddSpecialTokens ''[PAD]'') (Inr (add_special_tokens tokenizer0 ''[PAD]''))
        else result tokenizer0) (\<lambda>tok.
     then_run (call TokenizerCall (tokenizer_call w tok texts True True 512)) (\<lambda>enc.
     then_run (call DatasetFromDict
                 (from_dict (enc_input_ids enc) (enc_attention_mask enc) lbls)) (\<lambda>ds.
     result (tok, ds))))"

text \<open>
  Cell 11: \<^verbatim>\<open>train_test_split = dataset.train_test_split(test_size=0.2)\<close>; the train and
  eval datasets are its \<^verbatim>\<open>'train'\<close> and \<^verbatim>\<open>'test'\<close> entries. No seed is passed.
\<close>

definition cell11 :: "world \<Rightarrow> dataset \<Rightarrow> dataset_dict run" where
  "cell11 w ds = call TrainTestSplit (train_test_split w ds test_size None)"

text \<open>
  Cell 13:
  \<^verbatim>\<open>model = GPTNeoForSequenceClassification.from_pretrained(name, num_labels=2)\<close>
  \<^verbatim>\<open>model.config.pad_token_id = tokenizer.pad_token_id\<close>
  \<^verbatim>\<open>model.resize_token_embeddings(len(tokenizer))\<close>
\<close>

definition cell13 :: "world \<Rightarrow> tokenizer \<Rightarrow> model run" where
  "cell13 w tok =
     then_run (call (ModelFromPretrained model_name num_labels)
                 (from_pretrained w model_name num_labels)) (\<lambda>m0.
     then_run (call SetPadTokenId
                 (Inr (m0\<lparr>config_pad_token_id := pad_token_id tok\<rparr>))) (\<lambda>m1.
     call ResizeTokenEmbeddings (Inr (resize_token_embeddings m1 (len_tokenizer tok)))))"

text \<open>Cell 15: the training arguments.\<close>

definition training_args :: training_arguments where
  "training_args =
     \<lparr>output_dir = ''./results'',
      evaluation_strategy = ''epoch'',
      learning_rate = (2, -5),
      per_device_train_batch_size = 4,
      per_device_eval_batch_size = 4,
      num_train_epochs = 3,
      weight_decay = (1, -2),
      logging_dir = ''./logs'',
      logging_steps = 10,
      save_total_limit = 2\<rparr>"

definition cell15 :: "world \<Rightarrow> training_arguments run" where
  "cell15 w =
     call MakeTrainingArguments (raise_if (training_arguments_error w training_args) training_args)"

text \<open>
  Cell 17: the trainer is built, \<^verbatim>\<open>trainer.train()\<close> updates the model in place, then
  \<^verbatim>\<open>model.save_pretrained\<close> and \<^verbatim>\<open>tokenizer.save_pretrained\<close> write to the same directory.
  What the two calls wrote is returned as the list \<open>written\<close>, in the order of writing.
\<close>

datatype artifact = SavedModel model | SavedTokenizer tokenizer

record outcome =
  final_dataset :: dataset
  final_train_dataset :: dataset
  final_eval_dataset :: dataset
  final_tokenizer :: tokenizer
  final_model :: model
  written :: "(string \<times> artifact) list"

definition cell17 ::
  "world \<Rightarrow> model \<Rightarrow> training_arguments \<Rightarrow> dataset \<Rightarrow> dataset \<Rightarrow> tokenizer
     \<Rightarrow> (model \<times> (string \<times> artifact) list) run" where
  "cell17 w m args train_dataset eval_dataset tok =
     then_run (call MakeTrainer
                 (let t = \<lparr>trainer_model = m, trainer_args = args,
                           trainer_train_dataset = train_dataset,
                           trainer_eval_dataset = eval_dataset\<rparr>
                  in raise_if (trainer_error w t) t)) (\<lambda>t.
     then_run (call TrainerTrain
                 (and_then (train_outcome w t) (\<lambda>ws. Inr (m\<lparr>weights := ws\<rparr>)))) (\<lambda>m'.
     then_run (call (ModelSavePretrained save_dir)
                 (raise_if (save_model_error w save_dir m') [(save_dir, SavedModel m')])) (\<lambda>fs.
     then_run (call (TokenizerSavePretrained save_dir)
                 (raise_if (save_tokenizer_error w save_dir tok)
                    (fs @ [(save_dir, SavedTokenizer tok)]))) (\<lambda>fs'.
     result (m', fs')))))"

subsection \<open>The notebook\<close>

text \<open>What follows the fetch, given the parsed response.\<close>

definition after_fetch :: "world \<Rightarrow> json \<Rightarrow> outcome run" where
  "after_fetch w data =
     then_run (cell5 data) (\<lambda>(texts, lbls).
     then_run (cell7 w) (\<lambda>tokenizer0.
     then_run (cell9 w tokenizer0 texts lbls) (\<lambda>(tok, ds).
     then_run (cell11 w ds) (\<lambda>split.
     then_run (cell13 w tok) (\<lambda>m.
     then_run (cell15 w) (\<lambda>args.
     then_run (cell17 w m args (train split) (test split) tok) (\<lambda>(m', fs).
     result \<lparr>final_dataset = ds,
             final_train_dataset = train split,
             final_eval_dataset = test split,
             final_tokenizer = tok,
             final_model = m',
             written = fs\<rparr>)))))))"

definition notebook :: "world \<Rightarrow> outcome run" where
  "notebook w = then_run (cell3 w) (after_fetch w)"

text \<open>
  The operations of a complete run, in the order of the cells. The only one that a run
  may leave out is the call that adds the pad token.
\<close>

definition script_events :: "bool \<Rightarrow> event list" where
  "script_events adds_pad =
     [RequestsGet dataset_url, ResponseJson, ExtractTexts, ExtractLabels,
      TokenizerFromPretrained model_name]
     @ (if adds_pad then [AddSpecialTokens ''[PAD]''] else [])
     @ [TokenizerCall, DatasetFromDict, TrainTestSplit,
        ModelFromPretrained model_name num_labels, SetPadTokenId, ResizeTokenEmbeddings,
        MakeTrainingArguments, MakeTrainer, TrainerTrain,
        ModelSavePretrained save_dir, TokenizerSavePretrained save_dir]"

text \<open>Whether the published tokenizer lacks a pad token.\<close>

definition lacks_pad_token :: "world \<Rightarrow> bool" where
  "lacks_pad_token w =
     (case hub_tokenizer w model_name of Inl e \<Rightarrow> False | Inr tok \<Rightarrow> pad_token tok = None)"

text \<open>The steps the specification names, and the step each operation belongs to.\<close>

datatype step =
    DataFetch | LabelMapping | Tokenization | Split
  | ConfigureModel | ConfigureTraining | Training | Saving

definition all_steps :: "step list" where
  "all_steps =
     [DataFetch, LabelMapping, Tokenization, Split,
      ConfigureModel, ConfigureTraining, Training, Saving]"

fun step_of :: "event \<Rightarrow> step" where
  "step_of (RequestsGet u) = DataFetch"
| "step_of ResponseJson = DataFetch"
| "step_of ExtractTexts = LabelMapping"
| "step_of ExtractLabels = LabelMapping"
| "step_of (TokenizerFromPretrained n) = Tokenization"
| "step_of (AddSpecialTokens t) = Tokenization"
| "step_of TokenizerCall = Tokenization"
| "step_of DatasetFromDict = Tokenization"
| "step_of TrainTestSplit = Split"
| "step_of (ModelFromPretrained n k) = ConfigureModel"
| "step_of SetPadTokenId = ConfigureModel"
| "step_of ResizeTokenEmbeddings = ConfigureModel"
| "step_of MakeTrainingArguments = ConfigureTraining"
| "step_of MakeTrainer = Training"
| "step_of TrainerTrain = Training"
| "step_of (ModelSavePretrained d) = Saving"
| "step_of (TokenizerSavePretrained d) = Saving"

definition steps_of_run :: "event list \<Rightarrow> step list" where
  "steps_of_run tr = remdups_adj (map step_of tr)"

text \<open>
  A run follows a list of operations when it performs an initial segment of the list and,
  if it returns, the whole list.
\<close>

definition follows :: "'a run \<Rightarrow> event list \<Rightarrow> bool" where
  "follows m evs \<longleftrightarrow> prefix (fst m) evs \<and> (\<forall>x. snd m = Inr x \<longrightarrow> fst m = evs)"

subsection \<open>A sample response\<close>

text \<open>
  Three rows in the shape the datasets server returns them; the label of the first is the
  string \<^verbatim>\<open>'pos'\<close>, of the second the string \<^verbatim>\<open>'neg'\<close>, of the third an integer.
\<close>

definition sample_rows :: "json list" where
  "sample_rows =
     [JDict [(''row_idx'', JInt 0),
             (''row'', JDict [(''text'', JStr ''fine''), (''label'', JStr ''pos'')]),
             (''truncated_cells'', JList [])],
      JDict [(''row_idx'', JInt 1),
             (''row'', JDict [(''text'', JStr ''dull''), (''label'', JStr ''neg'')]),
             (''truncated_cells'', JList [])],
      JDict [(''row_idx'', JInt 2),
             (''row'', JDict [(''text'', JStr ''odd''), (''label'', JInt 1)]),
             (''truncated_cells'', JList [])]]"

definition sample_response :: json where
  "sample_response =
     JDict [(''features'', JList []), (''rows'', JList sample_rows),
            (''num_rows_total'', JInt 25000)]"

subsection \<open>A sample world\<close>

text \<open>
  A world in which every call succeeds: the sample response, a two-token tokenizer
  without pad token that encodes a string character by character, hub files that are
  all in the local cache, an identity "shuffle", and a training that returns; and the
  outcome of the notebook's run in it.
\<close>

definition sample_tokenizer :: tokenizer where
  "sample_tokenizer = \<lparr>vocab = [''a'', ''b''], pad_token = None\<rparr>"

definition sample_encode :: "tokenizer \<Rightarrow> json \<Rightarrow> pyerr + nat list" where
  "sample_encode tok v =
     (case v of
        JStr s \<Rightarrow> Inr (map (\<lambda>c. if c = CHR ''d'' then 0 else 1) s)
      | _ \<Rightarrow> Inl TypeError)"

definition sample_world :: world where
  "sample_world =
     \<lparr>http_get = (\<lambda>u. Inr \<lparr>status_code = 200, json_body = Inr sample_response\<rparr>),
      hub_tokenizer = (\<lambda>n. Inr sample_tokenizer),
      tokenizer_downloads = (\<lambda>n. []),
      encode = sample_encode,
      empty_batch_error = Some IndexError,
      global_permutation = (\<lambda>n. [0..<n]),
      seeded_permutation = (\<lambda>s n. [0..<n]),
      hub_checkpoint = (\<lambda>n. Inr \<lparr>ckpt_vocab_size = 2, ckpt_pad_token_id = None, ckpt_weights = 0\<rparr>),
      model_downloads = (\<lambda>n. []),
      training_arguments_error = (\<lambda>a. None),
      trainer_error = (\<lambda>t. None),
      train_outcome = (\<lambda>t. Inr 1),
      save_model_error = (\<lambda>d m. None),
      save_tokenizer_error = (\<lambda>d t. None)\<rparr>"

definition sample_outcome :: outcome where
  "sample_outcome =
     \<lparr>final_dataset =
        \<lparr>input_ids = [[1, 1, 1, 1], [0, 1, 1, 1], [1, 0, 0, 2]],
         attention_mask = [[1, 1, 1, 1], [1, 1, 1, 1], [1, 1, 1, 0]],
         labels = [1, 0, 0]\<rparr>,
      final_train_dataset =
        \<lparr>input_ids = [[0, 1, 1, 1], [1, 0, 0, 2]],
         attention_mask = [[1, 1, 1, 1], [1, 1, 1, 0]],
         labels = [0, 0]\<rparr>,
      final_eval_dataset =
        \<lparr>input_ids = [[1, 1, 1, 1]], attention_mask = [[1, 1, 1, 1]], labels = [1]\<rparr>,
      final_tokenizer = \<lparr>vocab = [''a'', ''b'', ''[PAD]''], pad_token = Some ''[PAD]''\<rparr>,
      final_model =
        \<lparr>config_num_labels = 2, config_pad_token_id = Some 2,
         embedding_rows = 3, weights = 1\<rparr>,
      written =
        [(''./fine_tuned_gpt_neo'',
          SavedModel \<lparr>config_num_labels = 2, config_pad_token_id = Some 2,
                       embedding_rows = 3, weights = 1\<rparr>),
         (''./fine_tuned_gpt_neo'',
          SavedTokenizer \<lparr>vocab = [''a'', ''b'', ''[PAD]''], pad_token = Some ''[PAD]''\<rparr>)]\<rparr>"




fun is_save :: "event \<Rightarrow> bool" where
  "is_save (ModelSavePretrained d) = True"
| "is_save (TokenizerSavePretrained d) = True"
| "is_save e = False"

subsection \<open>The part of a response the notebook reads\<close>



text \<open>
  \<open>prune\<close> keeps of a response the \<^verbatim>\<open>rows\<close> entry, of each row in a list of rows the
  \<^verbatim>\<open>row\<close> entry, and of that the \<^verbatim>\<open>text\<close> and \<^verbatim>\<open>label\<close> entries. Values that are no
  dictionaries (or, for the rows, no list) stay as they are.
\<close>

definition prune_fields :: "json \<Rightarrow> json" where
  "prune_fields r =
     (case r of
        JDict kvs \<Rightarrow> JDict (filter (\<lambda>kv. fst kv = ''text'' \<or> fst kv = ''label'') kvs)
      | _ \<Rightarrow> r)"

definition prune_row :: "json \<Rightarrow> json" where
  "prune_row row =
     (case row of
        JDict kvs \<Rightarrow>
          JDict (case map_of kvs ''row'' of None \<Rightarrow> [] | Some r \<Rightarrow> [(''row'', prune_fields r)])
      | _ \<Rightarrow> row)"

definition prune_rows :: "json \<Rightarrow> json" where
  "prune_rows rs = (case rs of JList xs \<Rightarrow> JList (map prune_row xs) | _ \<Rightarrow> rs)"

definition prune :: "json \<Rightarrow> json" where
  "prune data =
     (case data of
        JDict kvs \<Rightarrow>
          JDict (case map_of kvs ''rows'' of None \<Rightarrow> [] | Some rs \<Rightarrow> [(''rows'', prune_rows rs)])
      | _ \<Rightarrow> data)"

text \<open>The operations of a complete run before training starts.\<close>

definition setup_events :: "bool \<Rightarrow> event list" where
  "setup_events b = take (length (script_events b) - 3) (script_events b)"

subsection \<open>More sample worlds\<close>

text \<open>
  The sample world with a tokenizer that already has a pad token; with a response that
  carries nothing but the texts and labels (in one row with the keys in the other
  order), under another status code; with a response whose second row has no label; and
  with an empty local cache, so that each \<^verbatim>\<open>from_pretrained\<close> downloads a file.
\<close>

definition padded_world :: world where
  "padded_world =
     sample_world\<lparr>hub_tokenizer :=
       (\<lambda>n. Inr \<lparr>vocab = [''a'', ''b'', ''<pad>''], pad_token = Some ''<pad>''\<rparr>)\<rparr>"



definition broken_response :: json where
  "broken_response =
     JDict [(''rows'', JList
       [JDict [(''row'', JDict [(''text'', JStr ''fine''), (''label'', JStr ''pos'')])],
        JDict [(''row'', JDict [(''text'', JStr ''dull'')])]])]"

definition broken_world :: world where
  "broken_world =
     sample_world\<lparr>http_get := (\<lambda>u. Inr \<lparr>status_code = 200, json_body = Inr broken_response\<rparr>)\<rparr>"


text \<open>
  The sample world with a generator that yields the reversed index list, and what its
  run returns; the texts of the sample response.
\<close>

definition reshuffled_world :: world where
  "reshuffled_world = sample_world\<lparr>global_permutation := (\<lambda>n. rev [0..<n])\<rparr>"

definition reshuffled_outcome :: outcome where
  "reshuffled_outcome =
     sample_outcome
       \<lparr>final_train_dataset :=
          \<lparr>input_ids = [[0, 1, 1, 1], [1, 1, 1, 1]],
           attention_mask = [[1, 1, 1, 1], [1, 1, 1, 1]],
           labels = [0, 1]\<rparr>,
        final_eval_dataset :=
          \<lparr>input_ids = [[1, 0, 0, 2]], attention_mask = [[1, 1, 1, 0]], labels = [0]\<rparr>\<rparr>"

definition sample_texts :: "json list" where
  "sample_texts = [JStr ''fine'', JStr ''dull'', JStr ''odd'']"

section \<open>Properties\<close>

subsection \<open>Comprehensions and subscripts\<close>

lemma subscript_field: "subscript v k = Inr x \<longleftrightarrow> field v k = Some x"
  by (auto simp: subscript_def field_def split: json.splits option.splits)

lemma subscript_fails: "(\<exists>e. subscript v k = Inl e) \<longleftrightarrow> field v k = None"
  by (auto simp: subscript_def field_def split: json.splits option.splits)



lemma comprehension_fails:
  "x \<in> set xs \<Longrightarrow> f x = Inl e \<Longrightarrow> \<exists>e'. comprehension f xs = Inl e'"
  by (induction xs) (auto split: sum.splits)


lemma comprehension_map: "comprehension f (map h xs) = comprehension (\<lambda>x. f (h x)) xs"
  by (induction xs) (auto split: sum.splits)

lemma row_label_value:
  assumes "row_label row = Inr l"
  shows "\<exists>v. label_field row = Some v \<and> l = (if v = JStr ''pos'' then 1 else 0)"
proof -
  from assms obtain r where r: "subscript row ''row'' = Inr r"
    by (cases "subscript row ''row''") (simp_all add: row_label_def and_then_def)
  with assms obtain v where v: "subscript r ''label'' = Inr v"
    by (cases "subscript r ''label''") (simp_all add: row_label_def and_then_def)
  from assms r v have "l = (if v = JStr ''pos'' then 1 else 0)"
    by (simp add: row_label_def and_then_def)
  moreover from r v have "label_field row = Some v"
    by (simp add: label_field_def subscript_field)
  ultimately show ?thesis by blast
qed

lemma row_text_value: "row_text row = Inr t \<longleftrightarrow> text_field row = Some t"
proof (cases "subscript row ''row''")
  case (Inl e)
  then have "field row ''row'' = None"
    using subscript_fails [of row "''row''"] by blast
  with Inl show ?thesis
    by (simp add: row_text_def and_then_def text_field_def)
next
  case (Inr r)
  then have "field row ''row'' = Some r"
    by (simp add: subscript_field)
  then have "text_field row = field r ''text''"
    by (simp add: text_field_def)
  moreover have "row_text row = subscript r ''text''"
    using Inr by (simp add: row_text_def and_then_def)
  ultimately show ?thesis
    by (simp add: subscript_field)
qed

subsection \<open>The operations of a run\<close>

lemma follows_call: "follows (call ev r) [ev]"
  by (simp add: follows_def call_def)

lemma follows_result: "follows (result x) []"
  by (simp add: follows_def result_def)

lemma follows_then:
  assumes "follows m A" and "\<And>x. snd m = Inr x \<Longrightarrow> follows (k x) B"
  shows "follows (then_run m k) (A @ B)"
proof (cases "snd m")
  case (Inl e)
  with assms(1) show ?thesis
    by (simp add: follows_def then_run_def prefix_def) (metis append.assoc)
next
  case (Inr x)
  with assms(1) have A: "fst m = A" by (simp add: follows_def)
  from assms(2) [OF Inr] have "follows (k x) B" .
  with Inr A show ?thesis
    by (simp add: follows_def then_run_def)
qed

lemma follows_seq:
  assumes "follows m A" and "\<And>x. snd m = Inr x \<Longrightarrow> follows (k x) B" and "C = A @ B"
  shows "follows (then_run m k) C"
  using follows_then [OF assms(1,2)] assms(3) by simp

lemma follows_cell3: "follows (cell3 w) [RequestsGet dataset_url, ResponseJson]"
  unfolding cell3_def
  by (rule follows_seq [OF follows_call follows_call]) simp

lemma follows_cell5: "follows (cell5 data) [ExtractTexts, ExtractLabels]"
  unfolding cell5_def
  by (rule follows_seq [OF follows_call follows_seq [OF follows_call follows_result]]) simp_all

lemma follows_cell7: "follows (cell7 w) [TokenizerFromPretrained model_name]"
  unfolding cell7_def by (rule follows_call)

lemma follows_pad_guard:
  "follows (if pad_token tok = None
            then call (AddSpecialTokens ''[PAD]'') (Inr (add_special_tokens tok ''[PAD]''))
            else result tok)
     (if pad_token tok = None then [AddSpecialTokens ''[PAD]''] else [])"
  by (simp add: follows_call follows_result)

lemma follows_cell9:
  "follows (cell9 w tok texts lbls)
     ((if pad_token tok = None then [AddSpecialTokens ''[PAD]''] else [])
      @ [TokenizerCall, DatasetFromDict])"
  unfolding cell9_def
  by (rule follows_seq [OF follows_pad_guard
        follows_seq [OF follows_call follows_seq [OF follows_call follows_result]]])
     simp_all

lemma follows_cell11: "follows (cell11 w ds) [TrainTestSplit]"
  unfolding cell11_def by (rule follows_call)

lemma follows_cell13:
  "follows (cell13 w tok)
     [ModelFromPretrained model_name num_labels, SetPadTokenId, ResizeTokenEmbeddings]"
  unfolding cell13_def
  by (rule follows_seq [OF follows_call follows_seq [OF follows_call follows_call]]) simp_all

lemma follows_cell15: "follows (cell15 w) [MakeTrainingArguments]"
  unfolding cell15_def by (rule follows_call)

lemma follows_cell17:
  "follows (cell17 w m args tr ev tok)
     [MakeTrainer, TrainerTrain, ModelSavePretrained save_dir,
      TokenizerSavePretrained save_dir]"
  unfolding cell17_def
  by (rule follows_seq [OF follows_call follows_seq [OF follows_call
        follows_seq [OF follows_call follows_seq [OF follows_call follows_result]]]])
     simp_all

lemma cell7_loaded: "snd (cell7 w) = Inr tok \<Longrightarrow> hub_tokenizer w model_name = Inr tok"
  by (simp add: cell7_def call_def)

lemma follows_after_fetch:
  "follows (after_fetch w data) (drop 2 (script_events (lacks_pad_token w)))"
proof -
  have tail: "follows
      (then_run (cell9 w tok0 texts lbls) (\<lambda>(tok, ds).
       then_run (cell11 w ds) (\<lambda>split.
       then_run (cell13 w tok) (\<lambda>m.
       then_run (cell15 w) (\<lambda>args.
       then_run (cell17 w m args (train split) (test split) tok) (\<lambda>(m', fs).
       result \<lparr>final_dataset = ds,
               final_train_dataset = train split,
               final_eval_dataset = test split,
               final_tokenizer = tok,
               final_model = m',
               written = fs\<rparr>))))))
      (drop 5 (script_events (lacks_pad_token w)))"
    if "hub_tokenizer w model_name = Inr tok0" for tok0 texts lbls
    using that
    apply (simp only: lacks_pad_token_def sum.case)
    apply (rule follows_seq [OF follows_cell9])
     apply (simp only: split_beta)
     apply (rule follows_seq [OF follows_cell11])
      apply (rule follows_seq [OF follows_cell13])
       apply (rule follows_seq [OF follows_cell15])
        apply (rule follows_seq [OF follows_cell17])
         apply (simp only: split_beta)
         apply (rule follows_result)
        apply (rule refl)
       apply (rule refl)
      apply (rule refl)
     apply (rule refl)
    apply (simp add: script_events_def)
    done
  show ?thesis
    unfolding after_fetch_def
    apply (rule follows_seq [OF follows_cell5])
     apply (simp only: split_beta)
     apply (rule follows_seq [OF follows_cell7])
      apply (drule cell7_loaded)
      apply (erule tail)
     apply (rule refl)
    apply (simp add: script_events_def)
    done
qed

lemma follows_notebook: "follows (notebook w) (script_events (lacks_pad_token w))"
  unfolding notebook_def
  by (rule follows_seq [OF follows_cell3 follows_after_fetch]) (simp add: script_events_def)

subsection \<open>Labels\<close>





lemma sample_run: "notebook sample_world = (script_events True, Inr sample_outcome)"
  by code_simp

subsection \<open>The step sequence\<close>

lemma remdups_adj_prefix:
  assumes "prefix xs ys"
  shows "prefix (remdups_adj xs) (remdups_adj ys)"
proof (cases "xs = []")
  case True
  then show ?thesis by simp
next
  case False
  from assms obtain zs where ys: "ys = xs @ zs" by (auto simp: prefix_def)
  show ?thesis
    unfolding ys remdups_adj_append'' [OF False] by simp
qed

lemma steps_of_script: "steps_of_run (script_events b) = all_steps"
  by (cases b) (simp_all add: steps_of_run_def script_events_def all_steps_def)

lemma steps_prefix:
  "prefix tr (script_events b) \<Longrightarrow> prefix (steps_of_run tr) all_steps"
  using remdups_adj_prefix [OF map_mono_prefix, of tr "script_events b" step_of]
  by (simp add: steps_of_run_def [symmetric] steps_of_script)

text \<open>
  C2. The steps of a run are data fetch, label mapping, tokenization, train/eval split,
  model configuration, training configuration, training and saving, in this order: the
  operations of every run, grouped by step, form an initial segment of that sequence, so
  no step starts before the previous one is over and none is entered twice; a run that
  returns (no operation raises) goes through exactly the eight steps.
\<close>

theorem step_sequence:
  "prefix (steps_of_run (fst (notebook w))) all_steps
   \<and> distinct (steps_of_run (fst (notebook w)))
   \<and> (\<forall>fin. snd (notebook w) = Inr fin \<longrightarrow> steps_of_run (fst (notebook w)) = all_steps)"
proof -
  let ?tr = "fst (notebook w)" and ?b = "lacks_pad_token w"
  have f: "follows (notebook w) (script_events ?b)" by (rule follows_notebook)
  then have "prefix ?tr (script_events ?b)"
    by (simp add: follows_def)
  then have p: "prefix (steps_of_run ?tr) all_steps"
    by (rule steps_prefix)
  have "distinct all_steps" by (simp add: all_steps_def)
  with p have d: "distinct (steps_of_run ?tr)"
    by (metis distinct_append prefix_def)
  have "steps_of_run ?tr = all_steps" if "snd (notebook w) = Inr fin" for fin
    using f that by (simp add: follows_def steps_of_script)
  with p d show ?thesis by blast
qed

theorem step_sequence_witness:
  "snd (notebook sample_world) = Inr sample_outcome
   \<and> steps_of_run (fst (notebook sample_world)) =
       [DataFetch, LabelMapping, Tokenization, Split,
        ConfigureModel, ConfigureTraining, Training, Saving]"
  using step_sequence [of sample_world] sample_run
  by (simp add: all_steps_def)

subsection \<open>Pruning a response\<close>

lemma map_of_filter_key:
  "map_of (filter (\<lambda>kv. P (fst kv)) kvs) k = (if P k then map_of kvs k else None)"
  by (induction kvs) auto

lemma subscript_prune_fields:
  assumes "k = ''text'' \<or> k = ''label''"
  shows "subscript (prune_fields r) k = subscript r k"
proof (cases r)
  case (JDict kvs)
  have "map_of (filter (\<lambda>kv. fst kv = ''text'' \<or> fst kv = ''label'') kvs) k = map_of kvs k"
    using assms map_of_filter_key [of "\<lambda>k. k = ''text'' \<or> k = ''label''" kvs k] by simp
  with JDict show ?thesis
    by (simp add: prune_fields_def subscript_def)
qed (simp_all add: prune_fields_def)

lemma subscript_prune_row:
  "subscript (prune_row row) ''row'' =
     (case subscript row ''row'' of Inl e \<Rightarrow> Inl e | Inr r \<Rightarrow> Inr (prune_fields r))"
proof (cases row)
  case (JDict kvs)
  then show ?thesis
    by (cases "map_of kvs ''row''") (simp_all add: prune_row_def subscript_def)
qed (simp_all add: prune_row_def subscript_def)

lemma row_text_prune: "row_text (prune_row row) = row_text row"
  by (cases "subscript row ''row''")
     (simp_all add: row_text_def and_then_def subscript_prune_row subscript_prune_fields)

lemma row_label_prune: "row_label (prune_row row) = row_label row"
  by (cases "subscript row ''row''")
     (simp_all add: row_label_def and_then_def subscript_prune_row subscript_prune_fields)

lemma prune_row_JStr: "prune_row (JStr s) = JStr s"
  by (simp add: prune_row_def)

lemma iterate_prune_rows:
  "iterate (prune_rows rs) =
     (case iterate rs of Inl e \<Rightarrow> Inl e | Inr xs \<Rightarrow> Inr (map prune_row xs))"
  by (cases rs) (simp_all add: prune_rows_def iterate_def prune_row_JStr)

lemma rows_of_prune:
  "rows_of (prune data) =
     (case rows_of data of Inl e \<Rightarrow> Inl e | Inr xs \<Rightarrow> Inr (map prune_row xs))"
proof (cases data)
  case (JDict kvs)
  then show ?thesis
    by (cases "map_of kvs ''rows''")
       (simp_all add: prune_def rows_of_def and_then_def subscript_def iterate_prune_rows)
qed (simp_all add: prune_def rows_of_def and_then_def subscript_def)

lemma extract_texts_prune: "extract_texts (prune data) = extract_texts data"
  by (cases "rows_of data")
     (simp_all add: extract_texts_def and_then_def rows_of_prune comprehension_map
        row_text_prune)

lemma extract_labels_prune: "extract_labels (prune data) = extract_labels data"
  by (cases "rows_of data")
     (simp_all add: extract_labels_def and_then_def rows_of_prune comprehension_map
        row_label_prune)

lemma cell5_prune: "cell5 (prune data) = cell5 data"
  by (simp add: cell5_def extract_texts_prune extract_labels_prune)

lemma after_fetch_prune: "after_fetch w (prune data) = after_fetch w data"
  by (simp add: after_fetch_def cell5_prune)




lemma notebook_fetched:
  assumes "http_get w dataset_url = Inr r" and "json_body r = Inr data"
  shows "notebook w =
     (RequestsGet dataset_url # ResponseJson # fst (after_fetch w data),
      snd (after_fetch w data))"
  using assms by (simp add: notebook_def cell3_def then_run_def call_def)


subsection \<open>Malformed responses\<close>

lemma then_run_raises: "snd m = Inl e \<Longrightarrow> then_run m k = (fst m, Inl e)"
  by (simp add: then_run_def)

lemma cell5_raises:
  assumes "extract_texts data = Inl e \<or> extract_labels data = Inl e"
  shows "\<exists>e'. snd (cell5 data) = Inl e' \<and> set (fst (cell5 data)) \<subseteq> {ExtractTexts, ExtractLabels}"
proof (cases "extract_texts data")
  case (Inl e1)
  then show ?thesis
    by (simp add: cell5_def then_run_def call_def)
next
  case (Inr texts)
  with assms have "extract_labels data = Inl e" by simp
  with Inr show ?thesis
    by (simp add: cell5_def then_run_def call_def)
qed

lemma row_text_raises:
  assumes "text_field row = None"
  shows "\<exists>e. row_text row = Inl e"
proof (cases "row_text row")
  case (Inl e)
  then show ?thesis by blast
next
  case (Inr t)
  then have "text_field row = Some t" by (simp only: row_text_value)
  with assms show ?thesis by simp
qed

lemma row_label_raises:
  assumes "label_field row = None"
  shows "\<exists>e. row_label row = Inl e"
proof (cases "row_label row")
  case (Inl e)
  then show ?thesis by blast
next
  case (Inr l)
  then obtain v where "label_field row = Some v"
    using row_label_value by blast
  with assms show ?thesis by simp
qed

lemma no_row_no_text: "field row ''row'' = None \<Longrightarrow> text_field row = None"
  by (simp add: text_field_def)

lemma rows_absent_raises:
  assumes "field data ''rows'' = None"
  shows "\<exists>e. extract_texts data = Inl e"
proof -
  from assms obtain e where "subscript data ''rows'' = Inl e"
    using subscript_fails [of data "''rows''"] by blast
  then show ?thesis
    by (simp add: extract_texts_def rows_of_def and_then_def)
qed

lemma incomplete_row_raises:
  assumes "rows_of data = Inr rows" and "row \<in> set rows"
    and "field row ''row'' = None \<or> text_field row = None \<or> label_field row = None"
  shows "\<exists>e. extract_texts data = Inl e \<or> extract_labels data = Inl e"
proof (cases "text_field row = None")
  case True
  then obtain e where "row_text row = Inl e" using row_text_raises by blast
  from comprehension_fails [where f = row_text, OF assms(2) this]
  obtain e' where "comprehension row_text rows = Inl e'" ..
  with assms(1) have "extract_texts data = Inl e'"
    by (simp add: extract_texts_def and_then_def)
  then show ?thesis by blast
next
  case False
  have "text_field row = None \<or> label_field row = None"
  proof (rule disjE [OF assms(3)])
    assume "field row ''row'' = None"
    then show ?thesis by (simp add: text_field_def)
  next
    assume "text_field row = None \<or> label_field row = None"
    then show ?thesis .
  qed
  with False have "label_field row = None" by (elim disjE) simp_all
  then obtain e where "row_label row = Inl e" using row_label_raises by blast
  from comprehension_fails [where f = row_label, OF assms(2) this]
  obtain e' where "comprehension row_label rows = Inl e'" ..
  with assms(1) have "extract_labels data = Inl e'"
    by (simp add: extract_labels_def and_then_def)
  then show ?thesis by blast
qed

text \<open>
  C4. When the parsed response has no \<^verbatim>\<open>rows\<close> entry, or some row has no \<^verbatim>\<open>row\<close> entry or
  no \<^verbatim>\<open>text\<close> or \<^verbatim>\<open>label\<close> field in it, cell 5 raises; the run ends with that very
  exception (nothing catches it) and has performed no operation beyond the fetch and the
  two extractions: no tokenizing, splitting, training or saving.
\<close>

theorem malformed_response_stops_run:
  assumes "http_get w dataset_url = Inr r" and "json_body r = Inr data"
    and "field data ''rows'' = None
       \<or> (\<exists>rows row. rows_of data = Inr rows \<and> row \<in> set rows
            \<and> (field row ''row'' = None \<or> text_field row = None \<or> label_field row = None))"
  shows "\<exists>e. snd (cell5 data) = Inl e \<and> snd (notebook w) = Inl e
           \<and> set (fst (notebook w))
               \<subseteq> {RequestsGet dataset_url, ResponseJson, ExtractTexts, ExtractLabels}"
proof -
  have "\<exists>e0. extract_texts data = Inl e0 \<or> extract_labels data = Inl e0"
  proof (rule disjE [OF assms(3)])
    assume "field data ''rows'' = None"
    from rows_absent_raises [OF this] show ?thesis by (elim exE) (rule exI, rule disjI1)
  next
    assume "\<exists>rows row. rows_of data = Inr rows \<and> row \<in> set rows
            \<and> (field row ''row'' = None \<or> text_field row = None \<or> label_field row = None)"
    then obtain rows row where "rows_of data = Inr rows" and "row \<in> set rows"
      and "field row ''row'' = None \<or> text_field row = None \<or> label_field row = None"
      by (elim exE conjE)
    then show ?thesis by (rule incomplete_row_raises)
  qed
  then obtain e0 where "extract_texts data = Inl e0 \<or> extract_labels data = Inl e0" ..
  then obtain e where e: "snd (cell5 data) = Inl e"
    and tr: "set (fst (cell5 data)) \<subseteq> {ExtractTexts, ExtractLabels}"
    using cell5_raises by blast
  have "after_fetch w data = (fst (cell5 data), Inl e)"
    unfolding after_fetch_def by (rule then_run_raises [OF e])
  then have "notebook w = (RequestsGet dataset_url # ResponseJson # fst (cell5 data), Inl e)"
    using notebook_fetched [OF assms(1,2)] by simp
  with e tr show ?thesis by auto
qed

theorem malformed_response_stops_run_witness:
  "label_field (JDict [(''row'', JDict [(''text'', JStr ''dull'')])]) = None
   \<and> snd (notebook broken_world) = Inl (KeyError ''label'')
   \<and> fst (notebook broken_world)
       = [RequestsGet dataset_url, ResponseJson, ExtractTexts, ExtractLabels]"
proof -
  let ?row = "JDict [(''row'', JDict [(''text'', JStr ''dull'')])]"
  have 1: "http_get broken_world dataset_url
             = Inr \<lparr>status_code = 200, json_body = Inr broken_response\<rparr>"
    by (simp add: broken_world_def)
  have 2: "rows_of broken_response =
             Inr [JDict [(''row'', JDict [(''text'', JStr ''fine''), (''label'', JStr ''pos'')])],
                  ?row]"
    by code_simp
  have 3: "label_field ?row = None"
    by code_simp
  have 4: "snd (cell5 broken_response) = Inl (KeyError ''label'')"
    by code_simp
  have 5: "fst (notebook broken_world)
             = [RequestsGet dataset_url, ResponseJson, ExtractTexts, ExtractLabels]"
    by code_simp
  have "field broken_response ''rows'' = None
      \<or> (\<exists>rows row. rows_of broken_response = Inr rows \<and> row \<in> set rows
           \<and> (field row ''row'' = None \<or> text_field row = None \<or> label_field row = None))"
  proof (intro disjI2 exI conjI)
    show "rows_of broken_response =
            Inr [JDict [(''row'', JDict [(''text'', JStr ''fine''), (''label'', JStr ''pos'')])],
                 ?row]"
      by (rule 2)
    show "?row \<in> set [JDict [(''row'', JDict [(''text'', JStr ''fine''),
                                  (''label'', JStr ''pos'')])], ?row]"
      by simp
    show "label_field ?row = None"
      by (rule 3)
  qed
  from malformed_response_stops_run [OF 1 _ this] 4
  have "snd (notebook broken_world) = Inl (KeyError ''label'')" by auto
  with 3 5 show ?thesis by simp
qed

subsection \<open>Runs that return\<close>

lemma snd_then_run: "snd (then_run m k) = and_then (snd m) (\<lambda>x. snd (k x))"
  by (simp add: then_run_def and_then_def split: sum.splits)

lemma snd_call: "snd (call ev r) = r"
  by (simp add: call_def)

lemma snd_result: "snd (result x) = Inr x"
  by (simp add: result_def)

lemma and_then_Inr: "and_then r k = Inr y \<longleftrightarrow> (\<exists>x. r = Inr x \<and> k x = Inr y)"
  by (cases r) (simp_all add: and_then_def)

lemma raise_if_Inr: "raise_if err x = Inr y \<longleftrightarrow> err = None \<and> y = x"
  by (cases err) (auto simp: raise_if_def)

lemma cell17_returns:
  assumes "snd (cell17 w m args tr ev tok) = Inr (m', fs)"
  shows "(\<exists>t. train_outcome w t = Inr (weights m') \<and> trainer_model t = m
              \<and> trainer_train_dataset t = tr \<and> trainer_eval_dataset t = ev)
       \<and> m' = m\<lparr>weights := weights m'\<rparr>
       \<and> fs = [(save_dir, SavedModel m'), (save_dir, SavedTokenizer tok)]
       \<and> save_model_error w save_dir m' = None
       \<and> save_tokenizer_error w save_dir tok = None"
  using assms
  by (auto simp: cell17_def snd_then_run snd_call snd_result and_then_Inr raise_if_Inr
        Let_def)

lemma after_fetch_returns:
  assumes "snd (after_fetch w data) = Inr fin"
  obtains texts lbls tok0 split m args where
    "snd (cell5 data) = Inr (texts, lbls)"
    and "snd (cell7 w) = Inr tok0"
    and "snd (cell9 w tok0 texts lbls) = Inr (final_tokenizer fin, final_dataset fin)"
    and "snd (cell11 w (final_dataset fin)) = Inr split"
    and "final_train_dataset fin = train split"
    and "final_eval_dataset fin = test split"
    and "snd (cell13 w (final_tokenizer fin)) = Inr m"
    and "snd (cell15 w) = Inr args"
    and "snd (cell17 w m args (train split) (test split) (final_tokenizer fin))
           = Inr (final_model fin, written fin)"
  using assms
  by (auto simp: after_fetch_def snd_then_run snd_result and_then_Inr split_beta)

lemma notebook_returns:
  assumes "snd (notebook w) = Inr fin"
  shows "\<exists>data. snd (cell3 w) = Inr data \<and> snd (after_fetch w data) = Inr fin"
  using assms by (simp add: notebook_def snd_then_run and_then_Inr)

subsection \<open>Saving after training\<close>

lemma before_after:
  assumes "distinct (A @ t # S)" and "A @ t # S = pre @ e # rest" and "e \<in> set S"
  shows "t \<in> set pre \<and> t \<notin> set rest"
proof -
  from assms(1,3) have ne: "e \<noteq> t" and nA: "e \<notin> set A" and tS: "t \<notin> set S"
    by auto
  from assms(2) obtain us where
    "(A = pre @ us \<and> us @ t # S = e # rest) \<or> (A @ us = pre \<and> t # S = us @ e # rest)"
    by (auto simp: append_eq_append_conv2)
  then show ?thesis
  proof
    assume c: "A = pre @ us \<and> us @ t # S = e # rest"
    show ?thesis
    proof (cases us)
      case Nil
      with c ne show ?thesis by simp
    next
      case (Cons u us')
      with c nA show ?thesis by auto
    qed
  next
    assume c: "A @ us = pre \<and> t # S = us @ e # rest"
    show ?thesis
    proof (cases us)
      case Nil
      with c ne show ?thesis by simp
    next
      case (Cons u us')
      with c tS show ?thesis by auto
    qed
  qed
qed

lemma script_events_split:
  "script_events b =
     setup_events b @ TrainerTrain
       # [ModelSavePretrained save_dir, TokenizerSavePretrained save_dir]"
  by (cases b) (simp_all add: script_events_def setup_events_def)

lemma script_events_distinct: "distinct (script_events b)"
  by (cases b) (simp_all add: script_events_def)

lemma script_saves:
  "filter is_save (script_events b) =
     [ModelSavePretrained save_dir, TokenizerSavePretrained save_dir]"
  by (cases b) (simp_all add: script_events_def)

lemma save_follows_training:
  assumes "prefix (pre @ e # post) (script_events b)" and "is_save e"
  shows "TrainerTrain \<in> set pre \<and> TrainerTrain \<notin> set post"
proof -
  from assms(1) obtain zs where L: "script_events b = pre @ e # (post @ zs)"
    by (auto simp: prefix_def)
  with assms(2) have "e \<in> set (filter is_save (script_events b))" by simp
  then have e: "e \<in> set [ModelSavePretrained save_dir, TokenizerSavePretrained save_dir]"
    by (simp only: script_saves)
  have d: "distinct (setup_events b @ TrainerTrain
             # [ModelSavePretrained save_dir, TokenizerSavePretrained save_dir])"
    using script_events_distinct [of b] by (simp only: script_events_split [symmetric])
  have "setup_events b @ TrainerTrain
          # [ModelSavePretrained save_dir, TokenizerSavePretrained save_dir]
        = pre @ e # (post @ zs)"
    using L by (simp only: script_events_split [symmetric])
  from before_after [OF d this e] show ?thesis by simp
qed

text \<open>
  C7. A run that returns has written the fine-tuned model (the model as training left
  it) and the tokenizer, both to \<^verbatim>\<open>./fine_tuned_gpt_neo\<close>, as its last two operations
  right after \<^verbatim>\<open>trainer.train()\<close>. In every run, complete or not, a save operation has
  the training before it and none after it.
\<close>

theorem saved_after_training:
  "save_dir = ''./fine_tuned_gpt_neo''
   \<and> (\<forall>pre e post. fst (notebook w) = pre @ e # post \<and> is_save e
          \<longrightarrow> TrainerTrain \<in> set pre \<and> TrainerTrain \<notin> set post)
   \<and> (\<forall>fin. snd (notebook w) = Inr fin \<longrightarrow>
          written fin = [(save_dir, SavedModel (final_model fin)),
                         (save_dir, SavedTokenizer (final_tokenizer fin))]
        \<and> (\<exists>t. train_outcome w t = Inr (weights (final_model fin)))
        \<and> (\<exists>pre. fst (notebook w) =
               pre @ [TrainerTrain, ModelSavePretrained save_dir,
                      TokenizerSavePretrained save_dir]))"
proof (intro conjI allI impI)
  show "save_dir = ''./fine_tuned_gpt_neo''" by (simp add: save_dir_def)
next
  fix pre e post
  assume a: "fst (notebook w) = pre @ e # post \<and> is_save e"
  have "prefix (fst (notebook w)) (script_events (lacks_pad_token w))"
    using follows_notebook [of w] by (simp add: follows_def)
  with a have p: "prefix (pre @ e # post) (script_events (lacks_pad_token w))" by simp
  from a have s: "is_save e" by simp
  from save_follows_training [OF p s]
  show "TrainerTrain \<in> set pre" and "TrainerTrain \<notin> set post" by simp_all
next
  fix fin
  assume r: "snd (notebook w) = Inr fin"
  from notebook_returns [OF r] obtain data where "snd (after_fetch w data) = Inr fin"
    by blast
  then obtain m args and split :: dataset_dict where
    "snd (cell17 w m args (train split) (test split) (final_tokenizer fin))
       = Inr (final_model fin, written fin)"
    by (rule after_fetch_returns) blast
  from cell17_returns [OF this]
  show "written fin = [(save_dir, SavedModel (final_model fin)),
                       (save_dir, SavedTokenizer (final_tokenizer fin))]"
    and "\<exists>t. train_outcome w t = Inr (weights (final_model fin))"
    by blast+
  have "fst (notebook w) = script_events (lacks_pad_token w)"
    using follows_notebook [of w] r by (simp add: follows_def)
  then show "\<exists>pre. fst (notebook w) =
               pre @ [TrainerTrain, ModelSavePretrained save_dir,
                      TokenizerSavePretrained save_dir]"
    using script_events_split [of "lacks_pad_token w"] by simp
qed

theorem saved_after_training_witness:
  "snd (notebook sample_world) = Inr sample_outcome
   \<and> written sample_outcome =
       [(''./fine_tuned_gpt_neo'', SavedModel (final_model sample_outcome)),
        (''./fine_tuned_gpt_neo'', SavedTokenizer (final_tokenizer sample_outcome))]
   \<and> weights (final_model sample_outcome) = 1"
proof -
  have r: "snd (notebook sample_world) = Inr sample_outcome"
    by (simp add: sample_run)
  have "weights (final_model sample_outcome) = 1"
    by (simp add: sample_outcome_def)
  with saved_after_training [of sample_world] r show ?thesis by simp
qed

subsection \<open>The pad-token guard\<close>

text \<open>
  As the specification words it, no conditional selects between alternative paths and the
  operations of a run do not depend on what the run encounters. Cell 9 has such a
  conditional: two runs on the same response, both returning, one calling
  \<^verbatim>\<open>add_special_tokens\<close> and the other not.
\<close>

theorem pad_guard_counterexample:
  "http_get padded_world = http_get sample_world
   \<and> \<not> isl (snd (notebook sample_world))
   \<and> \<not> isl (snd (notebook padded_world))
   \<and> AddSpecialTokens ''[PAD]'' \<in> set (fst (notebook sample_world))
   \<and> AddSpecialTokens ''[PAD]'' \<notin> set (fst (notebook padded_world))
   \<and> fst (notebook sample_world) \<noteq> fst (notebook padded_world)"
proof -
  have 1: "http_get padded_world = http_get sample_world"
    by (simp add: padded_world_def)
  have 2: "\<not> isl (snd (notebook sample_world))"
    by (simp add: sample_run)
  have 3: "\<not> isl (snd (notebook padded_world))"
    by code_simp
  have 4: "AddSpecialTokens ''[PAD]'' \<in> set (fst (notebook sample_world))"
    by (simp add: sample_run script_events_def)
  have 5: "AddSpecialTokens ''[PAD]'' \<notin> set (fst (notebook padded_world))"
    by code_simp
  from 4 5 have "fst (notebook sample_world) \<noteq> fst (notebook padded_world)"
    by metis
  with 1 2 3 4 5 show ?thesis by simp
qed

lemma lacks_pad_token_http_get: "lacks_pad_token (w\<lparr>http_get := g\<rparr>) = lacks_pad_token w"
  by (simp add: lacks_pad_token_def)

lemma script_events_pad:
  "filter (\<lambda>e. e \<noteq> AddSpecialTokens ''[PAD]'') (script_events b) = script_events False"
  "AddSpecialTokens ''[PAD]'' \<in> set (script_events b) \<longleftrightarrow> b"
  by (cases b; simp add: script_events_def)+

text \<open>
  C8 (amended). The workflow is a linear script with one conditional, the pad-token guard
  of cell 9. Every run performs an initial segment of one fixed list of operations, the
  whole list when it returns; the list contains the \<^verbatim>\<open>add_special_tokens\<close> call exactly
  when the loaded tokenizer has no pad token, which the fetched response has no part in;
  apart from that call the list is the same for every run.
\<close>

theorem operations_up_to_pad_guard:
  "(\<exists>n. fst (notebook w) = take n (script_events (lacks_pad_token w)))
   \<and> (\<forall>fin. snd (notebook w) = Inr fin \<longrightarrow>
          fst (notebook w) = script_events (lacks_pad_token w))
   \<and> lacks_pad_token (w\<lparr>http_get := g\<rparr>) = lacks_pad_token w
   \<and> filter (\<lambda>e. e \<noteq> AddSpecialTokens ''[PAD]'') (script_events b) = script_events False
   \<and> (AddSpecialTokens ''[PAD]'' \<in> set (script_events b) \<longleftrightarrow> b)"
proof -
  have f: "follows (notebook w) (script_events (lacks_pad_token w))"
    by (rule follows_notebook)
  then have "prefix (fst (notebook w)) (script_events (lacks_pad_token w))"
    by (simp add: follows_def)
  then have 1: "\<exists>n. fst (notebook w) = take n (script_events (lacks_pad_token w))"
    by (metis prefix_def append_eq_conv_conj)
  have 2: "fst (notebook w) = script_events (lacks_pad_token w)"
    if "snd (notebook w) = Inr fin" for fin
    using f that by (simp add: follows_def)
  from 1 2 show ?thesis
    by (simp add: lacks_pad_token_http_get script_events_pad)
qed

theorem operations_up_to_pad_guard_witness:
  "lacks_pad_token sample_world
   \<and> \<not> lacks_pad_token padded_world
   \<and> fst (notebook sample_world) = script_events True
   \<and> fst (notebook padded_world) = script_events False"
proof -
  have 1: "lacks_pad_token sample_world" by code_simp
  have 2: "\<not> lacks_pad_token padded_world" by code_simp
  have 3: "snd (notebook sample_world) = Inr sample_outcome" by (simp add: sample_run)
  have "\<not> isl (snd (notebook padded_world))" by code_simp
  then obtain fin where 4: "snd (notebook padded_world) = Inr fin"
    by (cases "snd (notebook padded_world)") simp_all
  from operations_up_to_pad_guard [of sample_world] operations_up_to_pad_guard [of padded_world]
    1 2 3 4
  show ?thesis by simp
qed

subsection \<open>The dataset\<close>


lemma cell9_returns:
  assumes "snd (cell9 w tok0 texts lbls) = Inr (tok, ds)"
  shows "tok = (if pad_token tok0 = None then add_special_tokens tok0 ''[PAD]'' else tok0)
       \<and> (\<exists>enc. tokenizer_call w tok texts True True 512 = Inr enc
              \<and> from_dict (enc_input_ids enc) (enc_attention_mask enc) lbls = Inr ds)"
proof (cases "pad_token tok0 = None")
  case True
  with assms show ?thesis
    by (auto simp: cell9_def snd_then_run snd_call snd_result and_then_Inr)
next
  case False
  with assms show ?thesis
    by (auto simp: cell9_def snd_then_run snd_call snd_result and_then_Inr)
qed

lemma from_dict_returns:
  assumes "from_dict ids masks lbls = Inr ds"
  shows "input_ids ds = ids \<and> attention_mask ds = masks \<and> labels ds = lbls
       \<and> length masks = length ids \<and> length lbls = length ids"
  using assms by (auto simp: from_dict_def split: if_splits)




lemma tokenizer_call_returns:
  assumes "tokenizer_call w tok texts True True n = Inr enc"
  obtains seqs pid where
    "comprehension (encode w tok) texts = Inr seqs"
    and "pad_token_id tok = Some pid"
    and "enc_input_ids enc = map (pad_to (longest (map (take n) seqs)) pid) (map (take n) seqs)"
    and "enc_attention_mask enc =
           map (\<lambda>s. pad_to (longest (map (take n) seqs)) 0 (replicate (length s) 1))
             (map (take n) seqs)"
proof -
  from assms obtain pid where pid: "pad_token_id tok = Some pid"
    by (cases "pad_token_id tok") (simp_all add: tokenizer_call_def)
  with assms obtain seqs where seqs: "comprehension (encode w tok) texts = Inr seqs"
    by (cases "comprehension (encode w tok) texts") (simp_all add: tokenizer_call_def and_then_def)
  from assms pid seqs have
    r: "raise_if (if seqs = [] then empty_batch_error w else None) seqs = Inr seqs"
    by (cases "raise_if (if seqs = [] then empty_batch_error w else None) seqs")
       (simp_all add: tokenizer_call_def and_then_def raise_if_Inr)
  from assms pid seqs r have
    "enc = \<lparr>enc_input_ids = map (pad_to (longest (map (take n) seqs)) pid) (map (take n) seqs),
            enc_attention_mask =
              map (\<lambda>s. pad_to (longest (map (take n) seqs)) 0 (replicate (length s) 1))
                (map (take n) seqs)\<rparr>"
    by (simp add: tokenizer_call_def and_then_def Let_def)
  with that [OF seqs pid] show thesis by simp
qed



lemma sample_cell9:
  "snd (cell9 sample_world sample_tokenizer sample_texts [1, 0, 0])
     = Inr (final_tokenizer sample_outcome, final_dataset sample_outcome)"
  by code_simp

lemma sample_cell13:
  "snd (cell13 sample_world (final_tokenizer sample_outcome))
     = Inr ((final_model sample_outcome)\<lparr>weights := 0\<rparr>)"
  by code_simp


subsection \<open>Padding\<close>

lemma cell13_returns:
  assumes "snd (cell13 w tok) = Inr m"
  shows "\<exists>m0. from_pretrained w model_name num_labels = Inr m0
            \<and> m = resize_token_embeddings (m0\<lparr>config_pad_token_id := pad_token_id tok\<rparr>)
                    (len_tokenizer tok)"
  using assms
  by (auto simp: cell13_def snd_then_run snd_call and_then_Inr)

lemma from_pretrained_num_labels:
  "from_pretrained w name k = Inr m0 \<Longrightarrow> config_num_labels m0 = k"
  by (auto simp: from_pretrained_def and_then_Inr)

text \<open>
  C9. After cell 13 the model and the tokenizer agree on padding: the model's
  \<^verbatim>\<open>config.pad_token_id\<close> is the tokenizer's pad token id (which exists), and the embedding
  table has \<^verbatim>\<open>len(tokenizer)\<close> rows. A tokenizer that came with a pad token is unchanged;
  one that came without has \<^verbatim>\<open>'[PAD]'\<close> as pad token and its vocabulary extended by that one
  token, if it was not a token already.
\<close>

theorem padding_agreement:
  assumes "snd (cell9 w tok0 texts lbls) = Inr (tok, ds)"
    and "snd (cell13 w tok) = Inr m"
  shows "config_pad_token_id m = pad_token_id tok
       \<and> (\<exists>p. pad_token_id tok = Some p)
       \<and> embedding_rows m = len_tokenizer tok
       \<and> config_num_labels m = num_labels
       \<and> (pad_token tok0 \<noteq> None \<longrightarrow> tok = tok0)
       \<and> (pad_token tok0 = None \<longrightarrow>
            pad_token tok = Some ''[PAD]''
          \<and> vocab tok = (if ''[PAD]'' \<in> set (vocab tok0) then vocab tok0
                          else vocab tok0 @ [''[PAD]'']))"
proof -
  from cell13_returns [OF assms(2)] obtain m0 where
    m0: "from_pretrained w model_name num_labels = Inr m0" and
    m: "m = resize_token_embeddings (m0\<lparr>config_pad_token_id := pad_token_id tok\<rparr>)
              (len_tokenizer tok)"
    by blast
  from cell9_returns [OF assms(1)] obtain enc where
    tok: "tok = (if pad_token tok0 = None then add_special_tokens tok0 ''[PAD]'' else tok0)"
    and tc: "tokenizer_call w tok texts True True 512 = Inr enc"
    by blast
  from tc obtain p where p: "pad_token_id tok = Some p"
    by (rule tokenizer_call_returns)
  have 1: "config_pad_token_id m = pad_token_id tok"
    by (simp add: m resize_token_embeddings_def)
  have 2: "embedding_rows m = len_tokenizer tok"
    by (simp add: m resize_token_embeddings_def)
  have 3: "config_num_labels m = num_labels"
    using from_pretrained_num_labels [OF m0] by (simp add: m resize_token_embeddings_def)
  have 4: "tok = tok0" if "pad_token tok0 \<noteq> None"
    using tok that by simp
  have 5: "pad_token tok = Some ''[PAD]''
         \<and> vocab tok = (if ''[PAD]'' \<in> set (vocab tok0) then vocab tok0
                         else vocab tok0 @ [''[PAD]''])"
    if "pad_token tok0 = None"
    using tok that by (simp add: add_special_tokens_def)
  from 1 2 3 4 5 p show ?thesis by simp
qed

theorem padding_agreement_witness:
  "pad_token sample_tokenizer = None
   \<and> snd (cell9 sample_world sample_tokenizer sample_texts [1, 0, 0])
       = Inr (final_tokenizer sample_outcome, final_dataset sample_outcome)
   \<and> snd (cell13 sample_world (final_tokenizer sample_outcome))
       = Inr ((final_model sample_outcome)\<lparr>weights := 0\<rparr>)
   \<and> vocab (final_tokenizer sample_outcome) = [''a'', ''b'', ''[PAD]'']
   \<and> pad_token_id (final_tokenizer sample_outcome) = Some 2
   \<and> config_pad_token_id (final_model sample_outcome) = Some 2
   \<and> embedding_rows (final_model sample_outcome) = 3
   \<and> len_tokenizer (final_tokenizer sample_outcome) = 3"
proof -
  note ag = padding_agreement [OF sample_cell9 sample_cell13]
  have n: "pad_token sample_tokenizer = None" by (simp add: sample_tokenizer_def)
  have v: "vocab (final_tokenizer sample_outcome) = [''a'', ''b'', ''[PAD]'']"
    by (simp add: sample_outcome_def)
  have p: "pad_token_id (final_tokenizer sample_outcome) = Some 2"
    by code_simp
  have l: "len_tokenizer (final_tokenizer sample_outcome) = 3"
    by (simp add: len_tokenizer_def v)
  from ag p have "config_pad_token_id (final_model sample_outcome) = Some 2" by simp
  moreover from ag l have "embedding_rows (final_model sample_outcome) = 3" by simp
  ultimately show ?thesis
    using n v p l sample_cell9 sample_cell13 by simp
qed

subsection \<open>The train/eval split\<close>

lemma ceil_frac_fifth: "ceil_frac test_size n = (n + 4) div 5"
  by (simp add: ceil_frac_def test_size_def)

lemma ceil_frac_full: "ceil_frac test_size n = n \<longleftrightarrow> n \<le> 1"
  unfolding ceil_frac_fifth by linarith

lemma examples_nth:
  assumes "length (attention_mask ds) = length (input_ids ds)"
    and "length (labels ds) = length (input_ids ds)" and "i < num_rows ds"
  shows "examples ds ! i = (input_ids ds ! i, attention_mask ds ! i, labels ds ! i)"
  using assms by (simp add: examples_def num_rows_def)

lemma length_examples:
  assumes "length (attention_mask ds) = length (input_ids ds)"
    and "length (labels ds) = length (input_ids ds)"
  shows "length (examples ds) = num_rows ds"
  using assms by (simp add: examples_def num_rows_def)

lemma zip3_map:
  "zip (map f xs) (zip (map g xs) (map h xs)) = map (\<lambda>x. (f x, g x, h x)) xs"
  by (induction xs) simp_all

lemma select_returns:
  assumes "select ds idx = Inr sub"
    and "length (attention_mask ds) = length (input_ids ds)"
    and "length (labels ds) = length (input_ids ds)"
  shows "examples sub = map (\<lambda>i. examples ds ! i) idx \<and> num_rows sub = length idx"
proof -
  from assms(1) have r: "\<forall>i \<in> set idx. i < num_rows ds"
    and sub: "sub = \<lparr>input_ids = map (\<lambda>i. input_ids ds ! i) idx,
                     attention_mask = map (\<lambda>i. attention_mask ds ! i) idx,
                     labels = map (\<lambda>i. labels ds ! i) idx\<rparr>"
    by (auto simp: select_def list_all_iff split: if_splits)
  have "examples sub
          = map (\<lambda>i. (input_ids ds ! i, attention_mask ds ! i, labels ds ! i)) idx"
    by (simp add: sub examples_def zip3_map)
  also have "\<dots> = map (\<lambda>i. examples ds ! i) idx"
    using r by (intro map_cong refl) (simp add: examples_nth [OF assms(2,3)])
  finally show ?thesis by (simp add: sub num_rows_def)
qed

lemma select_in_range:
  assumes "\<forall>i \<in> set idx. i < num_rows ds"
  shows "\<exists>sub. select ds idx = Inr sub"
  using assms by (simp add: select_def list_all_iff)

lemma mset_nths_all:
  assumes "mset idx = mset [0..<length xs]"
  shows "mset (map (\<lambda>i. xs ! i) idx) = mset xs"
proof -
  have "mset (map (\<lambda>i. xs ! i) idx) = image_mset (\<lambda>i. xs ! i) (mset idx)" by simp
  also have "\<dots> = mset (map (\<lambda>i. xs ! i) [0..<length xs])"
    by (simp only: assms mset_map)
  also have "\<dots> = mset xs" by (simp add: map_nth)
  finally show ?thesis .
qed

lemma split_returns:
  assumes "train_test_split w ds test_size None = Inr split" and "num_rows ds \<noteq> 0"
  shows "select ds (take (num_rows ds - ceil_frac test_size (num_rows ds))
                      (drop (ceil_frac test_size (num_rows ds))
                         (global_permutation w (num_rows ds)))) = Inr (train split)
       \<and> select ds (take (ceil_frac test_size (num_rows ds))
                      (global_permutation w (num_rows ds))) = Inr (test split)"
proof -
  let ?n = "num_rows ds"
  let ?k = "ceil_frac test_size ?n"
  let ?p = "global_permutation w ?n"
  have eq: "train_test_split w ds test_size None =
      (if ?n - ?k = 0 then Inl ValueError
       else and_then (select ds (take (?n - ?k) (drop ?k ?p))) (\<lambda>a.
            and_then (select ds (take ?k ?p)) (\<lambda>b.
            Inr \<lparr>train = a, test = b\<rparr>)))"
    using assms(2) by (simp add: train_test_split_def Let_def)
  from assms(1) have ne: "?n - ?k \<noteq> 0"
    unfolding eq by (cases "?n - ?k = 0") simp_all
  from assms(1) obtain a b where
    "select ds (take (?n - ?k) (drop ?k ?p)) = Inr a"
    "select ds (take ?k ?p) = Inr b"
    "split = \<lparr>train = a, test = b\<rparr>"
    unfolding eq using ne by (auto simp: and_then_Inr)
  then show ?thesis by simp
qed

text \<open>
  C6. Provided the library's generator yields a permutation of the row indices, the split
  of cell 11 partitions the dataset: the train and eval examples are the dataset's
  examples at two disjoint index lists that together hold every index once, so that
  together they contain every example exactly once. The eval part has a fifth of the
  rows, rounded up (exactly 20% when the number of rows is a multiple of 5; 20 of 100,
  leaving 80 to train). The split returns for every dataset but one with a single row.
\<close>

theorem split_partitions:
  assumes "from_dict ids masks lbls = Inr ds"
    and "mset (global_permutation w (num_rows ds)) = mset [0..<num_rows ds]"
  shows "(num_rows ds \<noteq> 1 \<longrightarrow> (\<exists>split. snd (cell11 w ds) = Inr split))
       \<and> (\<forall>split. snd (cell11 w ds) = Inr split \<longrightarrow>
              (\<exists>train_idx test_idx.
                   examples (train split) = map (\<lambda>i. examples ds ! i) train_idx
                 \<and> examples (test split) = map (\<lambda>i. examples ds ! i) test_idx
                 \<and> distinct (train_idx @ test_idx)
                 \<and> set train_idx \<inter> set test_idx = {}
                 \<and> set train_idx \<union> set test_idx = {0..<num_rows ds})
            \<and> mset (examples (train split)) + mset (examples (test split))
                = mset (examples ds)
            \<and> num_rows (test split) = (num_rows ds + 4) div 5
            \<and> num_rows (train split) = num_rows ds - (num_rows ds + 4) div 5
            \<and> (5 dvd num_rows ds \<longrightarrow> 5 * num_rows (test split) = num_rows ds)
            \<and> (num_rows ds = 100 \<longrightarrow>
                 num_rows (test split) = 20 \<and> num_rows (train split) = 80))"
proof -
  let ?n = "num_rows ds"
  let ?k = "ceil_frac test_size ?n"
  let ?p = "global_permutation w ?n"
  let ?tr = "take (?n - ?k) (drop ?k ?p)"
  let ?te = "take ?k ?p"
  from from_dict_returns [OF assms(1)] have
    c1: "length (attention_mask ds) = length (input_ids ds)" and
    c2: "length (labels ds) = length (input_ids ds)" by simp_all
  have lp: "length ?p = ?n"
    using mset_eq_length [OF assms(2)] by simp
  have sp: "set ?p = {0..<?n}"
    using mset_eq_setD [OF assms(2)] by simp
  have dp: "distinct ?p"
    using mset_eq_imp_distinct_iff [OF assms(2)] by simp
  have k: "?k \<le> ?n"
    unfolding ceil_frac_fifth by linarith
  have tr: "?tr = drop ?k ?p" using lp by simp
  have cat: "?te @ ?tr = ?p" unfolding tr by simp
  have d: "distinct (?tr @ ?te)"
    using dp by (subst (asm) cat [symmetric]) auto
  have s: "set ?tr \<union> set ?te = {0..<?n}"
    using sp by (subst (asm) cat [symmetric]) auto
  have m: "mset (?tr @ ?te) = mset [0..<?n]"
    using assms(2) by (subst (asm) cat [symmetric]) (simp add: union_commute)
  have in_tr: "\<forall>i \<in> set ?tr. i < ?n" using s by auto
  have in_te: "\<forall>i \<in> set ?te. i < ?n" using s by auto
  have ex: "\<exists>split. snd (cell11 w ds) = Inr split" if "?n \<noteq> 1"
  proof (cases "?n = 0")
    case True
    then show ?thesis
      by (simp add: cell11_def snd_call train_test_split_def)
  next
    case False
    with that have "?n - ?k \<noteq> 0"
      using ceil_frac_full [of ?n] k by linarith
    moreover obtain a where "select ds ?tr = Inr a"
      using select_in_range [OF in_tr] by blast
    moreover obtain b where "select ds ?te = Inr b"
      using select_in_range [OF in_te] by blast
    ultimately show ?thesis using False
      by (simp add: cell11_def snd_call train_test_split_def Let_def and_then_def)
  qed
  have part: "(\<exists>train_idx test_idx.
                   examples (train split) = map (\<lambda>i. examples ds ! i) train_idx
                 \<and> examples (test split) = map (\<lambda>i. examples ds ! i) test_idx
                 \<and> distinct (train_idx @ test_idx)
                 \<and> set train_idx \<inter> set test_idx = {}
                 \<and> set train_idx \<union> set test_idx = {0..<num_rows ds})
            \<and> mset (examples (train split)) + mset (examples (test split))
                = mset (examples ds)
            \<and> num_rows (test split) = (num_rows ds + 4) div 5
            \<and> num_rows (train split) = num_rows ds - (num_rows ds + 4) div 5"
    if r: "snd (cell11 w ds) = Inr split" for split
  proof (cases "?n = 0")
    case True
    with r have split: "split = \<lparr>train = ds, test = ds\<rparr>"
      by (simp add: cell11_def snd_call train_test_split_def)
    from True have e: "examples ds = []"
      using length_examples [OF c1 c2] by simp
    have "examples (train split) = map (\<lambda>i. examples ds ! i) []
        \<and> examples (test split) = map (\<lambda>i. examples ds ! i) []
        \<and> distinct ([] @ ([] :: nat list))
        \<and> set ([] :: nat list) \<inter> set [] = {}
        \<and> set ([] :: nat list) \<union> set [] = {0..<num_rows ds}"
      using True e by (simp add: split)
    then have "\<exists>train_idx test_idx.
                   examples (train split) = map (\<lambda>i. examples ds ! i) train_idx
                 \<and> examples (test split) = map (\<lambda>i. examples ds ! i) test_idx
                 \<and> distinct (train_idx @ test_idx)
                 \<and> set train_idx \<inter> set test_idx = {}
                 \<and> set train_idx \<union> set test_idx = {0..<num_rows ds}"
      by blast
    with True e show ?thesis by (simp add: split)
  next
    case False
    from r have "train_test_split w ds test_size None = Inr split"
      by (simp add: cell11_def snd_call)
    from split_returns [OF this False] have
      a: "select ds ?tr = Inr (train split)" and b: "select ds ?te = Inr (test split)"
      by simp_all
    from select_returns [OF a c1 c2] have
      ea: "examples (train split) = map (\<lambda>i. examples ds ! i) ?tr" and
      na: "num_rows (train split) = length ?tr" by simp_all
    from select_returns [OF b c1 c2] have
      eb: "examples (test split) = map (\<lambda>i. examples ds ! i) ?te" and
      nb: "num_rows (test split) = length ?te" by simp_all
    have "mset (examples (train split)) + mset (examples (test split))
            = mset (map (\<lambda>i. examples ds ! i) (?tr @ ?te))"
      by (simp add: ea eb)
    also have "\<dots> = mset (examples ds)"
      using m by (intro mset_nths_all) (simp add: length_examples [OF c1 c2])
    finally have ms: "mset (examples (train split)) + mset (examples (test split))
                        = mset (examples ds)" .
    from d have dj: "set ?tr \<inter> set ?te = {}" by auto
    have idx: "\<exists>train_idx test_idx.
                   examples (train split) = map (\<lambda>i. examples ds ! i) train_idx
                 \<and> examples (test split) = map (\<lambda>i. examples ds ! i) test_idx
                 \<and> distinct (train_idx @ test_idx)
                 \<and> set train_idx \<inter> set test_idx = {}
                 \<and> set train_idx \<union> set test_idx = {0..<num_rows ds}"
      using ea eb d dj s by blast
    have "num_rows (test split) = (?n + 4) div 5"
      using nb lp k by (simp add: ceil_frac_fifth)
    moreover have "num_rows (train split) = ?n - (?n + 4) div 5"
      using na lp k by (simp add: ceil_frac_fifth)
    ultimately show ?thesis using idx ms by blast
  qed
  have five: "5 * ((?n + 4) div 5) = ?n" if "5 dvd ?n"
    using that by (elim dvdE) simp
  show ?thesis
  proof (intro conjI allI impI)
    assume "?n \<noteq> 1"
    then show "\<exists>split. snd (cell11 w ds) = Inr split" by (rule ex)
  next
    fix split assume r: "snd (cell11 w ds) = Inr split"
    from part [OF r] show
      "\<exists>train_idx test_idx.
           examples (train split) = map (\<lambda>i. examples ds ! i) train_idx
         \<and> examples (test split) = map (\<lambda>i. examples ds ! i) test_idx
         \<and> distinct (train_idx @ test_idx)
         \<and> set train_idx \<inter> set test_idx = {}
         \<and> set train_idx \<union> set test_idx = {0..<num_rows ds}"
      and "mset (examples (train split)) + mset (examples (test split)) = mset (examples ds)"
      and "num_rows (test split) = (num_rows ds + 4) div 5"
      and "num_rows (train split) = num_rows ds - (num_rows ds + 4) div 5"
      by blast+
    { assume "5 dvd ?n"
      from five [OF this] part [OF r]
      show "5 * num_rows (test split) = ?n" by simp }
    { assume "?n = 100"
      with part [OF r] show "num_rows (test split) = 20" and "num_rows (train split) = 80"
        by simp_all }
  qed
qed

lemma sample_from_dict:
  "from_dict [[1, 1, 1, 1], [0, 1, 1, 1], [1, 0, 0, 2]]
     [[1, 1, 1, 1], [1, 1, 1, 1], [1, 1, 1, 0]] [1, 0, 0]
   = Inr (final_dataset sample_outcome)"
  by (simp add: from_dict_def sample_outcome_def)

lemma sample_cell11:
  "snd (cell11 sample_world (final_dataset sample_outcome))
     = Inr \<lparr>train = final_train_dataset sample_outcome,
            test = final_eval_dataset sample_outcome\<rparr>"
  by code_simp

theorem split_partitions_witness:
  "num_rows (final_dataset sample_outcome) = 3
   \<and> mset (global_permutation sample_world 3) = mset [0..<3]
   \<and> snd (cell11 sample_world (final_dataset sample_outcome))
       = Inr \<lparr>train = final_train_dataset sample_outcome,
              test = final_eval_dataset sample_outcome\<rparr>
   \<and> mset (examples (final_train_dataset sample_outcome))
       + mset (examples (final_eval_dataset sample_outcome))
       = mset (examples (final_dataset sample_outcome))
   \<and> num_rows (final_eval_dataset sample_outcome) = 1
   \<and> num_rows (final_train_dataset sample_outcome) = 2"
proof -
  have n: "num_rows (final_dataset sample_outcome) = 3"
    by (simp add: num_rows_def sample_outcome_def)
  have p: "mset (global_permutation sample_world 3) = mset [0..<3]"
    by (simp add: sample_world_def)
  then have p': "mset (global_permutation sample_world (num_rows (final_dataset sample_outcome)))
                  = mset [0..<num_rows (final_dataset sample_outcome)]"
    by (simp only: n)
  from split_partitions [OF sample_from_dict p'] sample_cell11 n
  have "mset (examples (final_train_dataset sample_outcome))
        + mset (examples (final_eval_dataset sample_outcome))
        = mset (examples (final_dataset sample_outcome))"
    and "num_rows (final_eval_dataset sample_outcome) = 1"
    and "num_rows (final_train_dataset sample_outcome) = 2"
    by auto
  with n p sample_cell11 show ?thesis by simp
qed

lemma reshuffled_run:
  "notebook reshuffled_world = (script_events True, Inr reshuffled_outcome)"
  by code_simp

text \<open>
  C10. The split is not a function of the fetched data. Cell 11 passes no seed, so the
  permutation comes from the process-wide generator (with a seed, that generator would
  play no part). Two worlds with the same response, differing only in what the generator
  yields, both a permutation of the indices: both runs return, from the same dataset,
  with different train and eval datasets.
\<close>

theorem split_not_determined_by_data:
  "cell11 w ds = call TrainTestSplit (train_test_split w ds test_size None)
   \<and> train_test_split (w\<lparr>global_permutation := p\<rparr>) ds q (Some s)
       = train_test_split w ds q (Some s)
   \<and> reshuffled_world = sample_world\<lparr>global_permutation := global_permutation reshuffled_world\<rparr>
   \<and> http_get reshuffled_world = http_get sample_world
   \<and> mset (global_permutation sample_world 3) = mset [0..<3]
   \<and> mset (global_permutation reshuffled_world 3) = mset [0..<3]
   \<and> snd (notebook sample_world) = Inr sample_outcome
   \<and> snd (notebook reshuffled_world) = Inr reshuffled_outcome
   \<and> final_dataset reshuffled_outcome = final_dataset sample_outcome
   \<and> final_train_dataset reshuffled_outcome \<noteq> final_train_dataset sample_outcome
   \<and> final_eval_dataset reshuffled_outcome \<noteq> final_eval_dataset sample_outcome"
proof -
  have 1: "cell11 w ds = call TrainTestSplit (train_test_split w ds test_size None)"
    by (simp add: cell11_def)
  have 2: "train_test_split (w\<lparr>global_permutation := p\<rparr>) ds q (Some s)
             = train_test_split w ds q (Some s)"
  proof -
    have "seeded_permutation (w\<lparr>global_permutation := p\<rparr>) = seeded_permutation w"
      by simp
    then show ?thesis
      unfolding train_test_split_def option.case by (simp only:)
  qed
  have 3: "reshuffled_world
             = sample_world\<lparr>global_permutation := global_permutation reshuffled_world\<rparr>"
    by (simp add: reshuffled_world_def)
  have 4: "http_get reshuffled_world = http_get sample_world"
    by (simp add: reshuffled_world_def)
  have 5: "mset (global_permutation sample_world 3) = mset [0..<3]"
    by (simp add: sample_world_def)
  have 6: "mset (global_permutation reshuffled_world 3) = mset [0..<3]"
    by (simp add: reshuffled_world_def)
  have 7: "final_dataset reshuffled_outcome = final_dataset sample_outcome"
    by (simp add: reshuffled_outcome_def)
  have 8: "final_train_dataset reshuffled_outcome \<noteq> final_train_dataset sample_outcome"
    by (simp add: reshuffled_outcome_def sample_outcome_def)
  have 9: "final_eval_dataset reshuffled_outcome \<noteq> final_eval_dataset sample_outcome"
    by (simp add: reshuffled_outcome_def sample_outcome_def)
  from 1 2 3 4 5 6 7 8 9 show ?thesis
    by (simp add: sample_run reshuffled_run)
qed

subsection \<open>Outbound requests and the fields read\<close>























end
